theory Spec2Isabelle
  imports Main
begin

section \<open>Syntax nodes, positions and results\<close>

text \<open>
  The query \<open>DeclPosition\<close> of package \<open>gosource\<close> works on the syntax tree of
  \<open>go/ast\<close>. Only the node kinds its type switch distinguishes are kept apart;
  every node carries what the query reads: a name, a name list or a left-hand
  side, and the extent \<open>Pos()\<close>, \<open>End()\<close> that \<open>go/ast\<close> computes for it.
  A \<open>token.Pos\<close> and a Go \<open>int\<close> are modelled as \<open>int\<close>. The name of a parsed
  declaration and the identifiers of a name list are never \<open>nil\<close>, so they are
  values here.
\<close>

datatype Ident = Ident (NamePos: int) (Name: string)

datatype Expr = IdentExpr Ident | OtherExpr int int

datatype AssignStmt = AssignStmt (Lhs: "Expr list") (AssignPos: int) (AssignEnd: int)

datatype Node =
    N_Ident Ident
  | N_FuncDecl Ident int int
  | N_TypeSpec Ident int int
  | N_AssignStmt AssignStmt
  | N_Field "Ident list" int int
  | N_ValueSpec "Ident list" int int
  | N_Other int int

text \<open>An expression of a left-hand side, seen as a node.\<close>

fun Expr_Node :: "Expr \<Rightarrow> Node" where
  "Expr_Node (IdentExpr x) = N_Ident x"
| "Expr_Node (OtherExpr p e) = N_Other p e"

text \<open>
  \<open>node.Pos()\<close> and \<open>node.End()\<close>. An identifier starts at \<open>NamePos\<close> and ends
  \<open>len(Name)\<close> later; the other kinds carry their extent.
\<close>

fun Pos :: "Node \<Rightarrow> int" where
  "Pos (N_Ident x) = NamePos x"
| "Pos (N_FuncDecl n p e) = p"
| "Pos (N_TypeSpec n p e) = p"
| "Pos (N_AssignStmt t) = AssignPos t"
| "Pos (N_Field ns p e) = p"
| "Pos (N_ValueSpec ns p e) = p"
| "Pos (N_Other p e) = p"

fun End :: "Node \<Rightarrow> int" where
  "End (N_Ident x) = NamePos x + int (length (Name x))"
| "End (N_FuncDecl n p e) = e"
| "End (N_TypeSpec n p e) = e"
| "End (N_AssignStmt t) = AssignEnd t"
| "End (N_Field ns p e) = e"
| "End (N_ValueSpec ns p e) = e"
| "End (N_Other p e) = e"

record AstFile =
  Package :: int

record TokenFile =
  Base :: int
  Size :: int

record Position =
  Filename :: string
  Offset :: int
  Line :: int
  Column :: int

text \<open>An \<open>error\<close> made by \<open>fmt.Errorf\<close> is its message.\<close>

datatype error = Errorf string

text \<open>What the query writes: the identifier dump under \<open>Debug\<close>, and the result line
  of \<open>Logf\<close>.\<close>

datatype Output = IdOffsets AstFile | ResultLine int Position

text \<open>
  A call either returns its three results, each of which may be \<open>nil\<close>, or stops in
  a run-time panic (an index out of range).
\<close>

datatype Outcome = Panic | Return "Position option" "Position option" "error option"

section \<open>The collaborators of the query\<close>

text \<open>
  \<open>DeclPosition\<close> calls methods of \<open>Info\<close>, of its file set and of \<open>Resolver\<close>
  that are defined in other files of the package. They are parameters of the
  model: \<open>'i\<close> is the state of an \<open>Info\<close>, \<open>'r\<close> the state of a \<open>Resolver\<close>
  (which holds its \<open>Info\<close>, so that the file set read at the end is the one the
  resolver has left), \<open>'s\<close> the source argument. \<open>AddPathFile\<close>, \<open>ParseFile\<close>
  and \<open>ResolveDecl\<close> may change the state and return the new one.
\<close>

record ('i, 'r, 's) Env =
  NewInfo :: "'i"
  AddPathFile :: "'i \<Rightarrow> string \<Rightarrow> string \<times> 'i"
  ParseFile :: "'i \<Rightarrow> string \<Rightarrow> 's \<Rightarrow> AstFile option \<times> 'i"
  FSet_File :: "'i \<Rightarrow> int \<Rightarrow> TokenFile option"
  SafeOffsetPos :: "'i \<Rightarrow> TokenFile \<Rightarrow> int \<Rightarrow> int"
  PosNode :: "'i \<Rightarrow> int \<Rightarrow> Node option"
  PosFilePath :: "'i \<Rightarrow> int \<Rightarrow> string"
  NewResolver :: "'i \<Rightarrow> string \<Rightarrow> Ident \<Rightarrow> 'r"
  ResolveDecl :: "'r \<Rightarrow> Ident \<Rightarrow> Node option \<times> 'r"
  IdAssignStmtRhs :: "'r \<Rightarrow> Ident \<Rightarrow> AssignStmt \<Rightarrow> int \<times> Expr option"
  FSet_Position :: "'r \<Rightarrow> int \<Rightarrow> Position"

section \<open>The query\<close>

text \<open>
  The type switch that improves the resolved node (lines 52 to 79). The first
  argument is \<open>res.IdAssignStmtRhs\<close>. \<open>t.Lhs[lhsi]\<close> is guarded by \<open>lhsi >= 0\<close>
  only; at an index beyond the list Go panics, which is the result \<open>None\<close>. The two
  loops over \<open>t.Names\<close> stop at the first identifier of the queried name.
\<close>

fun improve_node :: "(Ident \<Rightarrow> AssignStmt \<Rightarrow> int \<times> Expr option) \<Rightarrow> Ident \<Rightarrow> Node \<Rightarrow> Node option" where
  "improve_node rhs idn (N_FuncDecl name p e) = Some (N_Ident name)"
| "improve_node rhs idn (N_TypeSpec name p e) = Some (N_Ident name)"
| "improve_node rhs idn (N_AssignStmt t) =
     (let lhsi = fst (rhs idn t) in
      if lhsi \<ge> 0 then
        (if nat lhsi < length (Lhs t) then Some (Expr_Node (Lhs t ! nat lhsi)) else None)
      else Some (N_AssignStmt t))"
| "improve_node rhs idn (N_Field names p e) =
     (case find (\<lambda>id2. Name id2 = Name idn) names of
        Some id2 \<Rightarrow> Some (N_Ident id2)
      | None \<Rightarrow> Some (N_Field names p e))"
| "improve_node rhs idn (N_ValueSpec names p e) =
     (case find (\<lambda>id2. Name id2 = Name idn) names of
        Some id2 \<Rightarrow> Some (N_Ident id2)
      | None \<Rightarrow> Some (N_ValueSpec names p e))"
| "improve_node rhs idn (N_Ident x) = Some (N_Ident x)"
| "improve_node rhs idn (N_Other p e) = Some (N_Other p e)"

text \<open>
  \<open>DeclPosition(filename, src, index)\<close>, with the package variable \<open>Debug\<close> and the
  output written so far as further arguments; the output is returned extended.
\<close>

definition DeclPosition ::
  "('i, 'r, 's) Env \<Rightarrow> bool \<Rightarrow> Output list \<Rightarrow> string \<Rightarrow> 's \<Rightarrow> int \<Rightarrow> Outcome \<times> Output list" where
  "DeclPosition E Debug out filename src index =
    (case AddPathFile E (NewInfo E) filename of (filename', info0) \<Rightarrow>
      (case ParseFile E info0 filename' src of
         (None, info) \<Rightarrow> (Return None None (Some (Errorf ''unable to parse file'')), out)
       | (Some astFile, info) \<Rightarrow>
          (let out1 = (if Debug then out @ [IdOffsets astFile] else out) in
            (case FSet_File E info (Package astFile) of
               None \<Rightarrow> (Return None None (Some (Errorf ''unable to get token file'')), out1)
             | Some tokenFile \<Rightarrow>
                (case PosNode E info (SafeOffsetPos E info tokenFile index) of
                   None \<Rightarrow> (Return None None (Some (Errorf ''index node not found'')), out1)
                 | Some indexNode \<Rightarrow>
                    (case indexNode of
                       N_Ident idn \<Rightarrow>
                        (let path = PosFilePath E info (Package astFile);
                             res0 = NewResolver E info path idn
                         in (case ResolveDecl E res0 idn of
                               (None, res) \<Rightarrow>
                                 (Return None None (Some (Errorf ''id decl not found'')), out1)
                             | (Some node, res) \<Rightarrow>
                                (case improve_node (IdAssignStmtRhs E res) idn node of
                                   None \<Rightarrow> (Panic, out1)
                                 | Some node' \<Rightarrow>
                                    (let posp = FSet_Position E res (Pos node');
                                         endp = FSet_Position E res (End node')
                                     in (Return (Some posp) (Some endp) None,
                                         out1 @ [ResultLine (Offset posp) posp])))))
                     | _ \<Rightarrow>
                        (Return None None (Some (Errorf ''index not at an id node'')), out1)))))))"

section \<open>Stages of a query\<close>

text \<open>
  The claims speak of the parse result, of the node located at the offset and of
  the resolved declaration. These are the values \<open>DeclPosition\<close> computes on its
  way, named here so that they can be referred to.
\<close>

definition parsed :: "('i, 'r, 's) Env \<Rightarrow> string \<Rightarrow> 's \<Rightarrow> AstFile option \<times> 'i" where
  "parsed E filename src =
    (case AddPathFile E (NewInfo E) filename of (filename', info0) \<Rightarrow>
       ParseFile E info0 filename' src)"

definition token_file :: "('i, 'r, 's) Env \<Rightarrow> string \<Rightarrow> 's \<Rightarrow> TokenFile option" where
  "token_file E filename src =
    (case parsed E filename src of
       (None, info) \<Rightarrow> None
     | (Some astFile, info) \<Rightarrow> FSet_File E info (Package astFile))"

definition index_node :: "('i, 'r, 's) Env \<Rightarrow> string \<Rightarrow> 's \<Rightarrow> int \<Rightarrow> Node option" where
  "index_node E filename src index =
    (case parsed E filename src of
       (None, info) \<Rightarrow> None
     | (Some astFile, info) \<Rightarrow>
        (case FSet_File E info (Package astFile) of
           None \<Rightarrow> None
         | Some tokenFile \<Rightarrow> PosNode E info (SafeOffsetPos E info tokenFile index)))"

definition resolution ::
  "('i, 'r, 's) Env \<Rightarrow> string \<Rightarrow> 's \<Rightarrow> int \<Rightarrow> (Ident \<times> Node option \<times> 'r) option" where
  "resolution E filename src index =
    (case parsed E filename src of
       (None, info) \<Rightarrow> None
     | (Some astFile, info) \<Rightarrow>
        (case index_node E filename src index of
           Some (N_Ident idn) \<Rightarrow>
            (case ResolveDecl E (NewResolver E info (PosFilePath E info (Package astFile)) idn) idn of
               (node, res) \<Rightarrow> Some (idn, node, res))
         | _ \<Rightarrow> None))"

fun is_Ident :: "Node \<Rightarrow> bool" where
  "is_Ident (N_Ident x) = True"
| "is_Ident n = False"

text \<open>The span a successful query returns for a node.\<close>

definition span_of :: "('i, 'r, 's) Env \<Rightarrow> 'r \<Rightarrow> Node \<Rightarrow> Outcome" where
  "span_of E res n =
     Return (Some (FSet_Position E res (Pos n))) (Some (FSet_Position E res (End n))) None"

text \<open>
  The five error values of the query. Four carry the names of the
  specification's taxonomy; ``unable to get token file'' has none there.
\<close>

abbreviation ParseError :: error where
  "ParseError \<equiv> Errorf ''unable to parse file''"

abbreviation NoTokenFile :: error where
  "NoTokenFile \<equiv> Errorf ''unable to get token file''"

abbreviation NoNodeAtOffset :: error where
  "NoNodeAtOffset \<equiv> Errorf ''index node not found''"

abbreviation NotAnIdentifier :: error where
  "NotAnIdentifier \<equiv> Errorf ''index not at an id node''"

abbreviation UnresolvedIdentifier :: error where
  "UnresolvedIdentifier \<equiv> Errorf ''id decl not found''"

definition Failure :: "error \<Rightarrow> Outcome" where
  "Failure err = Return None None (Some err)"

text \<open>
  What \<open>IdAssignStmtRhs\<close> is relied on for where \<open>t.Lhs[lhsi]\<close> is read: its index
  lies below \<open>len(t.Lhs)\<close>.
\<close>

definition index_in_Lhs :: "('i, 'r, 's) Env \<Rightarrow> bool" where
  "index_in_Lhs E = (\<forall>res idn t. fst (IdAssignStmtRhs E res idn t) < int (length (Lhs t)))"

section \<open>Collaborators modelled from the specification\<close>

text \<open>
  Modelled from the spec: \<open>SafeOffsetPos\<close>, a method of \<open>Info\<close> whose definition is
  in another file of the package.
  The specification's \<open>clampOffset\<close> maps an out-of-range offset (negative, or
  past end-of-file) to the nearest valid boundary offset rather than failing. The
  valid offsets of a file are \<open>0\<close> to its size; the position of an offset is the
  file's base plus the offset.
\<close>

definition clampOffset :: "TokenFile \<Rightarrow> int \<Rightarrow> int" where
  "clampOffset f offset = (if offset < 0 then 0 else if Size f < offset then Size f else offset)"

definition SafeOffsetPos_spec :: "TokenFile \<Rightarrow> int \<Rightarrow> int" where
  "SafeOffsetPos_spec f index = Base f + clampOffset f index"

text \<open>
  Modelled from the spec: \<open>IdAssignStmtRhs\<close>, a method of \<open>Resolver\<close> whose
  definition is in another file of the package.
  For a short assignment the specification selects the left-hand identifier at
  the position matching the name among the newly-declared names. \<open>new\<close> is the
  scope builder's classification of a left-hand identifier as a new declaration;
  the index is that of the first new left-hand identifier of the queried name,
  and \<open>-1\<close> when there is none.
\<close>

fun matches_name :: "(Ident \<Rightarrow> bool) \<Rightarrow> string \<Rightarrow> Expr \<Rightarrow> bool" where
  "matches_name new n (IdentExpr x) = (new x \<and> Name x = n)"
| "matches_name new n (OtherExpr p e) = False"

fun lhs_index_from :: "(Ident \<Rightarrow> bool) \<Rightarrow> string \<Rightarrow> Expr list \<Rightarrow> int \<Rightarrow> int" where
  "lhs_index_from new n [] i = - 1"
| "lhs_index_from new n (e # es) i =
     (if matches_name new n e then i else lhs_index_from new n es (i + 1))"

definition lhs_index :: "(Ident \<Rightarrow> bool) \<Rightarrow> Ident \<Rightarrow> AssignStmt \<Rightarrow> int" where
  "lhs_index new idn t = lhs_index_from new (Name idn) (Lhs t) 0"

text \<open>
  Modelled from the spec: the Position Index, whose methods \<open>ParseFile\<close> and
  \<open>FSet.File\<close> are defined in other files of the package. The state of an
  \<open>Info\<close> is the list of the source files added so far. Adding a file assigns it
  a slice of the global offset space sized to its content and parses it into a
  tree; it fails when the content cannot be parsed. \<open>parser\<close> is the underlying
  parser: from the base of the slice and the content it yields the size of the
  content and its tree, or nothing. The position of the file itself is the start
  of its slice. A position belongs to the first file whose slice, both boundaries
  included, contains it.
\<close>

record 't SourceFile =
  sf_path :: string
  sf_slice :: TokenFile
  sf_tree :: 't

definition next_base :: "'t SourceFile list \<Rightarrow> int" where
  "next_base fs = 1 + sum_list (map (\<lambda>f. Size (sf_slice f) + 1) fs)"

definition ParseFile_spec ::
  "(int \<Rightarrow> 's \<Rightarrow> (nat \<times> 't) option) \<Rightarrow> 't SourceFile list \<Rightarrow> string \<Rightarrow> 's
     \<Rightarrow> AstFile option \<times> 't SourceFile list" where
  "ParseFile_spec parser info filename src =
    (case parser (next_base info) src of
       None \<Rightarrow> (None, info)
     | Some (n, tree) \<Rightarrow>
        (Some \<lparr>Package = next_base info\<rparr>,
         info @ [\<lparr>sf_path = filename,
                  sf_slice = \<lparr>Base = next_base info, Size = int n\<rparr>,
                  sf_tree = tree\<rparr>]))"

definition in_slice :: "TokenFile \<Rightarrow> int \<Rightarrow> bool" where
  "in_slice tf p = (Base tf \<le> p \<and> p \<le> Base tf + Size tf)"

definition owning_file :: "'t SourceFile list \<Rightarrow> int \<Rightarrow> 't SourceFile option" where
  "owning_file info p = find (\<lambda>f. in_slice (sf_slice f) p) info"

definition FSet_File_spec :: "'t SourceFile list \<Rightarrow> int \<Rightarrow> TokenFile option" where
  "FSet_File_spec info p = map_option sf_slice (owning_file info p)"

text \<open>
  Modelled from the spec: the Node Locator, \<open>PosNode\<close>, defined in another file of
  the package. It fails only when the offset lies outside the file's root span,
  which does not occur after clamping: the root spans the slice of the file, both
  boundaries included. \<open>inner\<close> is the search for the most specific node below
  the root; where it finds none, the located node is the root.
\<close>

definition PosNode_spec ::
  "('t \<Rightarrow> int \<Rightarrow> Node option) \<Rightarrow> 't SourceFile list \<Rightarrow> int \<Rightarrow> Node option" where
  "PosNode_spec inner info p =
    (case owning_file info p of
       None \<Rightarrow> None
     | Some f \<Rightarrow>
        Some (case inner (sf_tree f) p of
                Some n \<Rightarrow> n
              | None \<Rightarrow> N_Other (Base (sf_slice f)) (Base (sf_slice f) + Size (sf_slice f))))"

text \<open>
  The collaborators \<open>E\<close> with those of the position index, the clamping step, the
  locator and the assignment index replaced by the models above; \<open>new res\<close> is
  the classification of new names that the resolver \<open>res\<close> holds.
\<close>

definition spec_Env ::
  "('t SourceFile list, 'r, 's) Env \<Rightarrow> (int \<Rightarrow> 's \<Rightarrow> (nat \<times> 't) option)
     \<Rightarrow> ('t \<Rightarrow> int \<Rightarrow> Node option) \<Rightarrow> ('r \<Rightarrow> Ident \<Rightarrow> bool)
     \<Rightarrow> ('t SourceFile list, 'r, 's) Env" where
  "spec_Env E parser inner new =
    E\<lparr>NewInfo := [],
      ParseFile := ParseFile_spec parser,
      FSet_File := FSet_File_spec,
      SafeOffsetPos := (\<lambda>info. SafeOffsetPos_spec),
      PosNode := PosNode_spec inner,
      IdAssignStmtRhs := (\<lambda>res idn t. (lhs_index (new res) idn t, snd (IdAssignStmtRhs E res idn t)))\<rparr>"

section \<open>An example file\<close>

text \<open>
  The collaborators for one file, \<open>a.go\<close>, with the text
  \<^verbatim>\<open>package p;func F(a, a int) { b, c := a, a };var v, w int;type T int\<close>
  of 67 bytes on one line, at base 1. Every other text is rejected by the example's
  parser. The parameter list repeats the name \<open>a\<close>, and every left-hand name of
  the short assignment is new.
\<close>

definition all_new :: "Ident \<Rightarrow> bool" where
  "all_new x = True"

definition demo_src :: string where
  "demo_src = ''package p;func F(a, a int) { b, c := a, a };var v, w int;type T int''"

definition demo_idents :: "Ident list" where
  "demo_idents =
    [Ident 9 ''p'', Ident 16 ''F'', Ident 18 ''a'', Ident 21 ''a'', Ident 23 ''int'',
     Ident 30 ''b'', Ident 33 ''c'', Ident 38 ''a'', Ident 41 ''a'',
     Ident 49 ''v'', Ident 52 ''w'', Ident 54 ''int'', Ident 63 ''T'', Ident 65 ''int'']"

definition demo_PosNode :: "int \<Rightarrow> Node option" where
  "demo_PosNode p =
    (case find (\<lambda>x. NamePos x \<le> p \<and> p < NamePos x + int (length (Name x))) demo_idents of
       Some x \<Rightarrow> Some (N_Ident x)
     | None \<Rightarrow> if 1 \<le> p \<and> p \<le> 68 then Some (N_Other 1 68) else None)"

definition demo_ResolveDecl :: "Ident \<Rightarrow> Node option" where
  "demo_ResolveDecl idn =
    (if Name idn = ''F'' then Some (N_FuncDecl (Ident 16 ''F'') 11 44)
     else if Name idn = ''a'' then Some (N_Field [Ident 18 ''a'', Ident 21 ''a''] 18 26)
     else if Name idn = ''b'' \<or> Name idn = ''c'' then
       Some (N_AssignStmt (AssignStmt [IdentExpr (Ident 30 ''b''), IdentExpr (Ident 33 ''c'')] 30 42))
     else if Name idn = ''v'' \<or> Name idn = ''w'' then
       Some (N_ValueSpec [Ident 49 ''v'', Ident 52 ''w''] 49 57)
     else if Name idn = ''T'' then Some (N_TypeSpec (Ident 63 ''T'') 63 68)
     else None)"

definition demo_Position :: "int \<Rightarrow> Position" where
  "demo_Position p = \<lparr>Filename = ''a.go'', Offset = p - 1, Line = 1, Column = p\<rparr>"

definition demo_Env :: "(unit, unit, string) Env" where
  "demo_Env =
    \<lparr>NewInfo = (),
     AddPathFile = (\<lambda>info filename. (filename, info)),
     ParseFile = (\<lambda>info filename src.
        (if src = demo_src then Some \<lparr>Package = 1\<rparr> else None, info)),
     FSet_File = (\<lambda>info p. if 1 \<le> p \<and> p \<le> 68 then Some \<lparr>Base = 1, Size = 67\<rparr> else None),
     SafeOffsetPos = (\<lambda>info. SafeOffsetPos_spec),
     PosNode = (\<lambda>info. demo_PosNode),
     PosFilePath = (\<lambda>info p. ''a.go''),
     NewResolver = (\<lambda>info path idn. ()),
     ResolveDecl = (\<lambda>res idn. (demo_ResolveDecl idn, res)),
     IdAssignStmtRhs = (\<lambda>res idn t. (lhs_index all_new idn t, None)),
     FSet_Position = (\<lambda>res. demo_Position)\<rparr>"

text \<open>The example's collaborators with a locator that finds no node.\<close>

definition demo_Env_no_node :: "(unit, unit, string) Env" where
  "demo_Env_no_node = demo_Env\<lparr>PosNode := (\<lambda>info p. None)\<rparr>"

text \<open>
  The same file with the modelled position index and locator: the parser yields
  the size 67 and, for a tree, the identifiers of the text; the search below the
  root finds the identifier that contains the position.
\<close>

definition demo_parser :: "int \<Rightarrow> string \<Rightarrow> (nat \<times> Ident list) option" where
  "demo_parser base src = (if base = 1 \<and> src = demo_src then Some (67, demo_idents) else None)"

definition demo_inner :: "Ident list \<Rightarrow> int \<Rightarrow> Node option" where
  "demo_inner tree p =
     map_option N_Ident (find (\<lambda>x. NamePos x \<le> p \<and> p < NamePos x + int (length (Name x))) tree)"

definition demo_rest :: "(Ident list SourceFile list, unit, string) Env" where
  "demo_rest =
    \<lparr>NewInfo = [],
     AddPathFile = (\<lambda>info filename. (filename, info)),
     ParseFile = (\<lambda>info filename src. (None, info)),
     FSet_File = (\<lambda>info p. None),
     SafeOffsetPos = (\<lambda>info tf index. 0),
     PosNode = (\<lambda>info p. None),
     PosFilePath = (\<lambda>info p. ''a.go''),
     NewResolver = (\<lambda>info path idn. ()),
     ResolveDecl = (\<lambda>res idn. (demo_ResolveDecl idn, res)),
     IdAssignStmtRhs = (\<lambda>res idn t. (- 1, None)),
     FSet_Position = (\<lambda>res. demo_Position)\<rparr>"

definition demo_spec_Env :: "(Ident list SourceFile list, unit, string) Env" where
  "demo_spec_Env = spec_Env demo_rest demo_parser demo_inner (\<lambda>res. all_new)"

section \<open>Declaring occurrences and sub-nodes\<close>

text \<open>
  An identifier is a declaring occurrence when it is the name of a function or
  type declaration, a name of a value specification or of a field, or a new name
  on the left of a short assignment.
\<close>

fun declares :: "(Ident \<Rightarrow> bool) \<Rightarrow> Node \<Rightarrow> Ident \<Rightarrow> bool" where
  "declares new (N_FuncDecl name p e) x = (name = x)"
| "declares new (N_TypeSpec name p e) x = (name = x)"
| "declares new (N_AssignStmt t) x = (IdentExpr x \<in> set (Lhs t) \<and> new x)"
| "declares new (N_Field names p e) x = (x \<in> set names)"
| "declares new (N_ValueSpec names p e) x = (x \<in> set names)"
| "declares new (N_Ident y) x = False"
| "declares new (N_Other p e) x = False"

text \<open>A declaring occurrence that no earlier identifier of the same name precedes
  in its name list or left-hand side.\<close>

fun first_of_name :: "(Ident \<Rightarrow> bool) \<Rightarrow> Node \<Rightarrow> Ident \<Rightarrow> bool" where
  "first_of_name new (N_FuncDecl name p e) x = (name = x)"
| "first_of_name new (N_TypeSpec name p e) x = (name = x)"
| "first_of_name new (N_AssignStmt t) x =
     (find (matches_name new (Name x)) (Lhs t) = Some (IdentExpr x))"
| "first_of_name new (N_Field names p e) x = (find (\<lambda>y. Name y = Name x) names = Some x)"
| "first_of_name new (N_ValueSpec names p e) x = (find (\<lambda>y. Name y = Name x) names = Some x)"
| "first_of_name new (N_Ident y) x = False"
| "first_of_name new (N_Other p e) x = False"

text \<open>
  The sub-identifier of a declaration that matches a queried identifier: the name
  of a function or type declaration; an identifier of the queried name in the
  name list of a field or value specification, or among the new names on the left
  of a short assignment.
\<close>

fun matching_sub :: "(Ident \<Rightarrow> bool) \<Rightarrow> Node \<Rightarrow> Ident \<Rightarrow> Ident \<Rightarrow> bool" where
  "matching_sub new (N_FuncDecl name p e) idn x = (x = name)"
| "matching_sub new (N_TypeSpec name p e) idn x = (x = name)"
| "matching_sub new (N_AssignStmt t) idn x = (IdentExpr x \<in> set (Lhs t) \<and> new x \<and> Name x = Name idn)"
| "matching_sub new (N_Field names p e) idn x = (x \<in> set names \<and> Name x = Name idn)"
| "matching_sub new (N_ValueSpec names p e) idn x = (x \<in> set names \<and> Name x = Name idn)"
| "matching_sub new (N_Ident y) idn x = False"
| "matching_sub new (N_Other p e) idn x = False"

section \<open>The outcome of a query, stage by stage\<close>

lemmas stage_defs = parsed_def token_file_def index_node_def resolution_def

lemma DeclPosition_parse_fail:
  "fst (parsed E f s) = None \<Longrightarrow> DeclPosition E d out f s i = (Failure ParseError, out)"
  by (auto simp: DeclPosition_def parsed_def Failure_def split: prod.splits option.splits)

lemma DeclPosition_no_token_file:
  "fst (parsed E f s) = Some a \<Longrightarrow> token_file E f s = None \<Longrightarrow>
   fst (DeclPosition E d out f s i) = Failure NoTokenFile"
  by (auto simp: DeclPosition_def stage_defs Failure_def Let_def split: prod.splits option.splits)

lemma DeclPosition_no_node:
  "token_file E f s = Some tf \<Longrightarrow> index_node E f s i = None \<Longrightarrow>
   fst (DeclPosition E d out f s i) = Failure NoNodeAtOffset"
  by (auto simp: DeclPosition_def stage_defs Failure_def Let_def split: prod.splits option.splits)

lemma DeclPosition_not_ident:
  "index_node E f s i = Some n \<Longrightarrow> \<not> is_Ident n \<Longrightarrow>
   fst (DeclPosition E d out f s i) = Failure NotAnIdentifier"
  by (cases n) (auto simp: DeclPosition_def stage_defs Failure_def Let_def split: prod.splits option.splits)

lemma DeclPosition_unresolved:
  "resolution E f s i = Some (idn, None, res) \<Longrightarrow>
   fst (DeclPosition E d out f s i) = Failure UnresolvedIdentifier"
  by (auto simp: DeclPosition_def stage_defs Failure_def Let_def split: prod.splits option.splits Node.splits)

lemma DeclPosition_resolved:
  "resolution E f s i = Some (idn, Some node, res) \<Longrightarrow>
   fst (DeclPosition E d out f s i) =
     (case improve_node (IdAssignStmtRhs E res) idn node of
        None \<Rightarrow> Panic
      | Some n \<Rightarrow> span_of E res n)"
  by (auto simp: DeclPosition_def stage_defs span_of_def Let_def split: prod.splits option.splits Node.splits)

lemma stages:
  obtains
    (at_parse) "fst (parsed E f s) = None"
  | (at_file) a where "fst (parsed E f s) = Some a" "token_file E f s = None"
  | (at_node) tf where "token_file E f s = Some tf" "index_node E f s i = None"
  | (at_ident) n where "index_node E f s i = Some n" "\<not> is_Ident n"
  | (at_unres) idn res where "resolution E f s i = Some (idn, None, res)"
  | (at_res) idn node res where "resolution E f s i = Some (idn, Some node, res)"
proof (cases "parsed E f s")
  case (Pair ao info)
  show thesis
  proof (cases ao)
    case None
    with Pair at_parse show thesis by simp
  next
    case (Some a)
    note a = Pair Some
    show thesis
    proof (cases "FSet_File E info (Package a)")
      case None
      with a at_file show thesis by (simp add: token_file_def)
    next
      case (Some tf)
      note tf = Some
      show thesis
      proof (cases "PosNode E info (SafeOffsetPos E info tf i)")
        case None
        with a tf at_node show thesis by (simp add: token_file_def index_node_def)
      next
        case (Some n)
        with a tf have n: "index_node E f s i = Some n" by (simp add: index_node_def)
        show thesis
        proof (cases "is_Ident n")
          case False
          with n at_ident show thesis by simp
        next
          case True
          then obtain idn where idn: "n = N_Ident idn" by (cases n) auto
          obtain nd res where
            "ResolveDecl E (NewResolver E info (PosFilePath E info (Package a)) idn) idn = (nd, res)"
            by (cases "ResolveDecl E (NewResolver E info (PosFilePath E info (Package a)) idn) idn")
          with a n idn have "resolution E f s i = Some (idn, nd, res)"
            by (simp add: resolution_def)
          with at_unres at_res show thesis by (cases nd) auto
        qed
      qed
    qed
  qed
qed

lemma DeclPosition_index_cong:
  "token_file E f s = Some tf \<Longrightarrow> \<forall>info. SafeOffsetPos E info tf i = SafeOffsetPos E info tf j \<Longrightarrow>
   DeclPosition E d out f s i = DeclPosition E d out f s j"
  by (auto simp: DeclPosition_def token_file_def parsed_def split: prod.splits option.splits)

lemma Failure_inject: "Failure a = Failure b \<longleftrightarrow> a = b"
  by (simp add: Failure_def)

lemma span_not_Failure: "span_of E res n \<noteq> Failure err"
  by (simp add: span_of_def Failure_def)

lemma Panic_not_Failure: "Panic \<noteq> Failure err"
  by (simp add: Failure_def)

lemma resolved_not_Failure:
  "resolution E f s i = Some (idn, Some node, res) \<Longrightarrow> fst (DeclPosition E d out f s i) \<noteq> Failure err"
  by (simp add: DeclPosition_resolved span_not_Failure Panic_not_Failure split: option.splits)

lemma index_node_parsed:
  "index_node E f s i = Some n \<Longrightarrow> \<exists>a. fst (parsed E f s) = Some a"
  by (auto simp: index_node_def split: prod.splits option.splits)

lemma resolution_index_node:
  "resolution E f s i = Some (idn, nd, res) \<Longrightarrow> index_node E f s i = Some (N_Ident idn)"
  by (auto simp: resolution_def split: prod.splits option.splits Node.splits)

lemma token_file_parsed:
  "token_file E f s = Some tf \<Longrightarrow> \<exists>a. fst (parsed E f s) = Some a"
  by (auto simp: token_file_def split: prod.splits option.splits)

lemma index_node_token_file:
  "index_node E f s i = Some n \<Longrightarrow> \<exists>tf. token_file E f s = Some tf"
  by (auto simp: index_node_def token_file_def split: prod.splits option.splits)

section \<open>The modelled collaborators\<close>

lemma clampOffset_idem: "0 \<le> Size tf \<Longrightarrow> clampOffset tf (clampOffset tf i) = clampOffset tf i"
  by (simp add: clampOffset_def)

lemma lhs_index_from_range:
  "lhs_index_from new n es k = - 1 \<or>
   (k \<le> lhs_index_from new n es k \<and> lhs_index_from new n es k < k + int (length es))"
  by (induction es arbitrary: k) (auto, force+)

lemma lhs_index_from_first:
  "\<forall>e \<in> set pre. \<not> matches_name new n e \<Longrightarrow> matches_name new n e' \<Longrightarrow>
   lhs_index_from new n (pre @ e' # post) k = k + int (length pre)"
  by (induction pre arbitrary: k) auto

lemma lhs_index_less: "lhs_index new idn t < int (length (Lhs t))"
  using lhs_index_from_range [of new "Name idn" "Lhs t" 0] by (auto simp: lhs_index_def)

lemma lhs_index_from_find:
  "find (matches_name new n) es = Some e \<Longrightarrow>
   \<exists>j. lhs_index_from new n es k = k + int j \<and> j < length es \<and> es ! j = e"
proof (induction es arbitrary: k)
  case Nil
  then show ?case by simp
next
  case (Cons a es)
  show ?case
  proof (cases "matches_name new n a")
    case True
    with Cons.prems have "lhs_index_from new n (a # es) k = k + int 0 \<and> 0 < length (a # es) \<and> (a # es) ! 0 = e"
      by simp
    then show ?thesis by blast
  next
    case False
    with Cons.prems have "find (matches_name new n) es = Some e" by simp
    from Cons.IH [OF this, of "k + 1"] obtain j where
      "lhs_index_from new n es (k + 1) = k + 1 + int j" "j < length es" "es ! j = e" by blast
    with False have "lhs_index_from new n (a # es) k = k + int (Suc j) \<and> Suc j < length (a # es)
        \<and> (a # es) ! Suc j = e"
      by simp
    then show ?thesis by blast
  qed
qed

lemma matches_name_iff: "matches_name new n e \<longleftrightarrow> (\<exists>x. e = IdentExpr x \<and> new x \<and> Name x = n)"
  by (cases e) auto

lemma lhs_index_from_cases:
  "0 \<le> k \<Longrightarrow>
   (lhs_index_from new n es k = - 1 \<and> (\<forall>e \<in> set es. \<not> matches_name new n e))
   \<or> (\<exists>j < length es. lhs_index_from new n es k = k + int j \<and> matches_name new n (es ! j))"
proof (induction es arbitrary: k)
  case Nil
  then show ?case by simp
next
  case (Cons a es)
  show ?case
  proof (cases "matches_name new n a")
    case True
    then have "0 < length (a # es) \<and> lhs_index_from new n (a # es) k = k + int 0
        \<and> matches_name new n ((a # es) ! 0)" by simp
    then show ?thesis by blast
  next
    case False
    from Cons.prems have "0 \<le> k + 1" by simp
    from Cons.IH [OF this] show ?thesis
    proof
      assume "lhs_index_from new n es (k + 1) = - 1 \<and> (\<forall>e \<in> set es. \<not> matches_name new n e)"
      with False show ?thesis by simp
    next
      assume "\<exists>j < length es. lhs_index_from new n es (k + 1) = k + 1 + int j
          \<and> matches_name new n (es ! j)"
      then obtain j where "j < length es" "lhs_index_from new n es (k + 1) = k + 1 + int j"
        "matches_name new n (es ! j)" by blast
      with False have "Suc j < length (a # es) \<and> lhs_index_from new n (a # es) k = k + int (Suc j)
          \<and> matches_name new n ((a # es) ! Suc j)" by simp
      then show ?thesis by blast
    qed
  qed
qed

lemma owning_file_last:
  "in_slice (sf_slice x) p \<Longrightarrow> \<exists>f. owning_file (xs @ [x]) p = Some f"
  by (cases "owning_file (xs @ [x]) p") (auto simp: owning_file_def find_None_iff)

lemma owning_file_slice:
  "owning_file info p = Some f \<Longrightarrow> f \<in> set info \<and> in_slice (sf_slice f) p"
  by (auto simp: owning_file_def find_Some_iff)

lemma owning_file_member:
  "f \<in> set info \<Longrightarrow> in_slice (sf_slice f) p \<Longrightarrow> \<exists>g. owning_file info p = Some g"
  by (cases "owning_file info p") (auto simp: owning_file_def find_None_iff)

lemma in_slice_clamp:
  "in_slice tf q \<Longrightarrow> in_slice tf (SafeOffsetPos_spec tf i)"
  by (auto simp: in_slice_def SafeOffsetPos_spec_def clampOffset_def)

lemma spec_token_file:
  assumes "fst (parsed (spec_Env E parser inner new) f s) = Some a"
  shows "\<exists>tf. token_file (spec_Env E parser inner new) f s = Some tf"
proof -
  obtain fn info0 where ap: "AddPathFile E [] f = (fn, info0)" by (cases "AddPathFile E [] f")
  from assms ap obtain n tree where pr: "parser (next_base info0) s = Some (n, tree)"
    by (auto simp: parsed_def spec_Env_def ParseFile_spec_def split: option.splits)
  let ?sf = "\<lparr>sf_path = fn, sf_slice = \<lparr>Base = next_base info0, Size = int n\<rparr>, sf_tree = tree\<rparr>"
  have "in_slice (sf_slice ?sf) (next_base info0)" by (simp add: in_slice_def)
  from owning_file_last [OF this, of info0] obtain g
    where "owning_file (info0 @ [?sf]) (next_base info0) = Some g" by blast
  with ap pr show ?thesis
    by (simp add: token_file_def parsed_def spec_Env_def ParseFile_spec_def FSet_File_spec_def)
qed

lemma spec_index_node:
  assumes "token_file (spec_Env E parser inner new) f s = Some tf"
  shows "\<exists>n. index_node (spec_Env E parser inner new) f s i = Some n"
proof -
  obtain ao info where p: "parsed (spec_Env E parser inner new) f s = (ao, info)"
    by (cases "parsed (spec_Env E parser inner new) f s")
  with assms obtain a where a: "ao = Some a" by (cases ao) (auto simp: token_file_def)
  from assms p a have "FSet_File_spec info (Package a) = Some tf"
    by (simp add: token_file_def spec_Env_def)
  then obtain g where g: "owning_file info (Package a) = Some g" "sf_slice g = tf"
    by (auto simp: FSet_File_spec_def)
  from owning_file_slice [OF g(1)] g(2) have "g \<in> set info" "in_slice tf (Package a)" by auto
  from in_slice_clamp [OF this(2), of i] \<open>g \<in> set info\<close> g(2)
  obtain h where "owning_file info (SafeOffsetPos_spec tf i) = Some h"
    using owning_file_member [of g info "SafeOffsetPos_spec tf i"] by auto
  with p a \<open>FSet_File_spec info (Package a) = Some tf\<close> show ?thesis
    by (simp add: index_node_def spec_Env_def PosNode_spec_def)
qed

lemma spec_index_in_Lhs: "index_in_Lhs (spec_Env E parser inner new)"
  by (simp add: index_in_Lhs_def spec_Env_def lhs_index_less)

section \<open>The type switch\<close>

lemma find_first:
  "\<forall>y \<in> set pre. \<not> P y \<Longrightarrow> P x \<Longrightarrow> find P (pre @ x # post) = Some x"
  by (induction pre) auto

lemma find_names_cases:
  "find (\<lambda>y. Name y = n) names = None \<and> (\<forall>y \<in> set names. Name y \<noteq> n)
   \<or> (\<exists>id2 \<in> set names. find (\<lambda>y. Name y = n) names = Some id2 \<and> Name id2 = n)"
  by (induction names) auto

lemma improve_node_Some:
  "\<forall>t. node = N_AssignStmt t \<longrightarrow> fst (rhs idn t) < int (length (Lhs t)) \<Longrightarrow>
   \<exists>n. improve_node rhs idn node = Some n"
  by (cases node) (auto simp: Let_def split: option.splits)

lemma first_of_name_improve:
  assumes "first_of_name new node idn"
    and "\<forall>t. node = N_AssignStmt t \<longrightarrow> fst (rhs idn t) = lhs_index new idn t"
  shows "improve_node rhs idn node = Some (N_Ident idn)"
proof (cases node)
  case (N_AssignStmt t)
  with assms(1) have "find (matches_name new (Name idn)) (Lhs t) = Some (IdentExpr idn)" by simp
  from lhs_index_from_find [OF this, of 0] obtain j where
    j: "lhs_index new idn t = int j" "j < length (Lhs t)" "Lhs t ! j = IdentExpr idn"
    by (auto simp: lhs_index_def)
  with assms(2) N_AssignStmt show ?thesis by (simp add: Let_def)
qed (use assms(1) in auto)

lemma first_of_name_declares: "first_of_name new node idn \<Longrightarrow> declares new node idn"
proof (cases node)
  case (N_AssignStmt t)
  assume "first_of_name new node idn"
  with N_AssignStmt have "find (matches_name new (Name idn)) (Lhs t) = Some (IdentExpr idn)" by simp
  then have "IdentExpr idn \<in> set (Lhs t) \<and> matches_name new (Name idn) (IdentExpr idn)"
    by (metis find_Some_iff nth_mem)
  with N_AssignStmt show ?thesis by simp
next
  case (N_Field names p e)
  assume "first_of_name new node idn"
  with N_Field show ?thesis by (auto simp: find_Some_iff)
next
  case (N_ValueSpec names p e)
  assume "first_of_name new node idn"
  with N_ValueSpec show ?thesis by (auto simp: find_Some_iff)
qed auto

lemma improve_node_assign:
  assumes "fst (rhs idn t) = lhs_index new idn t"
  shows "(improve_node rhs idn (N_AssignStmt t) = Some (N_AssignStmt t)
            \<and> (\<forall>x. \<not> matching_sub new (N_AssignStmt t) idn x))
         \<or> (\<exists>x. improve_node rhs idn (N_AssignStmt t) = Some (N_Ident x)
                \<and> matching_sub new (N_AssignStmt t) idn x)"
proof -
  from lhs_index_from_cases [of 0 new "Name idn" "Lhs t"]
  consider (none) "lhs_index new idn t = - 1" "\<forall>e \<in> set (Lhs t). \<not> matches_name new (Name idn) e"
    | (some) j where "j < length (Lhs t)" "lhs_index new idn t = int j"
        "matches_name new (Name idn) (Lhs t ! j)"
    by (auto simp: lhs_index_def)
  then show ?thesis
  proof cases
    case none
    from none(2) have "\<forall>x. \<not> matching_sub new (N_AssignStmt t) idn x"
      by (auto simp: matches_name_iff)
    with none(1) assms show ?thesis by simp
  next
    case some
    from some(3) obtain x where x: "Lhs t ! j = IdentExpr x" "new x" "Name x = Name idn"
      by (auto simp: matches_name_iff)
    with some(1) have "IdentExpr x \<in> set (Lhs t)" by (metis nth_mem)
    with x have "matching_sub new (N_AssignStmt t) idn x" by simp
    moreover have "improve_node rhs idn (N_AssignStmt t) = Some (N_Ident x)"
      using assms some(1,2) x(1) by (simp add: Let_def)
    ultimately show ?thesis by blast
  qed
qed

lemma improve_node_names:
  "(find (\<lambda>y. Name y = Name idn) names = None \<and> (\<forall>x. \<not> (x \<in> set names \<and> Name x = Name idn)))
   \<or> (\<exists>x. find (\<lambda>y. Name y = Name idn) names = Some x \<and> x \<in> set names \<and> Name x = Name idn)"
  using find_names_cases [of "Name idn" names] by auto

lemma improve_node_matching:
  assumes "\<forall>t. fst (rhs idn t) = lhs_index new idn t"
  shows "(improve_node rhs idn node = Some node \<and> (\<forall>x. \<not> matching_sub new node idn x))
         \<or> (\<exists>x. improve_node rhs idn node = Some (N_Ident x) \<and> matching_sub new node idn x)"
proof (cases node)
  case (N_AssignStmt t)
  with improve_node_assign [of rhs idn t new] assms show ?thesis by simp
next
  case (N_Field names p e)
  with improve_node_names [of idn names] show ?thesis by auto
next
  case (N_ValueSpec names p e)
  with improve_node_names [of idn names] show ?thesis by auto
qed auto

section \<open>The example evaluated\<close>

lemmas demo_defs =
  demo_Env_def demo_src_def demo_PosNode_def demo_idents_def demo_ResolveDecl_def
  demo_Position_def SafeOffsetPos_spec_def clampOffset_def lhs_index_def

lemma demo_parsed: "parsed demo_Env ''a.go'' demo_src = (Some \<lparr>Package = 1\<rparr>, ())"
  by (simp add: parsed_def demo_Env_def)

lemma demo_token_file: "token_file demo_Env ''a.go'' demo_src = Some \<lparr>Base = 1, Size = 67\<rparr>"
  by (simp add: token_file_def demo_parsed) (simp add: demo_Env_def)

lemma demo_index_node:
  "index_node demo_Env ''a.go'' demo_src i = demo_PosNode (1 + clampOffset \<lparr>Base = 1, Size = 67\<rparr> i)"
  by (simp add: index_node_def demo_parsed) (simp add: demo_Env_def SafeOffsetPos_spec_def)

lemma demo_resolution:
  "demo_PosNode (1 + clampOffset \<lparr>Base = 1, Size = 67\<rparr> i) = Some (N_Ident x) \<Longrightarrow>
   resolution demo_Env ''a.go'' demo_src i = Some (x, demo_ResolveDecl x, ())"
  by (simp add: resolution_def demo_parsed demo_index_node) (simp add: demo_Env_def)

lemma demo_span:
  "span_of demo_Env () (N_Ident (Ident q n)) =
     Return (Some \<lparr>Filename = ''a.go'', Offset = q - 1, Line = 1, Column = q\<rparr>)
            (Some \<lparr>Filename = ''a.go'', Offset = q + int (length n) - 1, Line = 1,
                    Column = q + int (length n)\<rparr>) None"
  by (simp add: span_of_def demo_Env_def demo_Position_def)

lemma demo_at_15: "demo_PosNode (1 + clampOffset \<lparr>Base = 1, Size = 67\<rparr> 15) = Some (N_Ident (Ident 16 ''F''))"
  by (simp add: demo_PosNode_def demo_idents_def clampOffset_def)

lemma demo_at_17: "demo_PosNode (1 + clampOffset \<lparr>Base = 1, Size = 67\<rparr> 17) = Some (N_Ident (Ident 18 ''a''))"
  by (simp add: demo_PosNode_def demo_idents_def clampOffset_def)

lemma demo_at_20: "demo_PosNode (1 + clampOffset \<lparr>Base = 1, Size = 67\<rparr> 20) = Some (N_Ident (Ident 21 ''a''))"
  by (simp add: demo_PosNode_def demo_idents_def clampOffset_def)

lemma demo_at_32: "demo_PosNode (1 + clampOffset \<lparr>Base = 1, Size = 67\<rparr> 32) = Some (N_Ident (Ident 33 ''c''))"
  by (simp add: demo_PosNode_def demo_idents_def clampOffset_def)

lemma demo_at_51: "demo_PosNode (1 + clampOffset \<lparr>Base = 1, Size = 67\<rparr> 51) = Some (N_Ident (Ident 52 ''w''))"
  by (simp add: demo_PosNode_def demo_idents_def clampOffset_def)

lemma demo_spec_parsed:
  "parsed demo_spec_Env ''a.go'' demo_src =
     (Some \<lparr>Package = 1\<rparr>,
      [\<lparr>sf_path = ''a.go'', sf_slice = \<lparr>Base = 1, Size = 67\<rparr>, sf_tree = demo_idents\<rparr>])"
  by (simp add: parsed_def demo_spec_Env_def spec_Env_def demo_rest_def ParseFile_spec_def
      demo_parser_def next_base_def)

lemma demo_spec_index_node:
  "index_node demo_spec_Env ''a.go'' demo_src i =
     Some (case demo_inner demo_idents (1 + clampOffset \<lparr>Base = 1, Size = 67\<rparr> i) of
             Some n \<Rightarrow> n | None \<Rightarrow> N_Other 1 68)"
proof -
  have "in_slice \<lparr>Base = 1, Size = 67\<rparr> (1 + clampOffset \<lparr>Base = 1, Size = 67\<rparr> i)"
    by (simp add: in_slice_def clampOffset_def)
  then show ?thesis
    by (simp add: index_node_def demo_spec_parsed)
       (simp add: demo_spec_Env_def spec_Env_def FSet_File_spec_def owning_file_def in_slice_def
          PosNode_spec_def SafeOffsetPos_spec_def split: option.splits)
qed

lemma demo_spec_resolution:
  "demo_inner demo_idents (1 + clampOffset \<lparr>Base = 1, Size = 67\<rparr> i) = Some (N_Ident x) \<Longrightarrow>
   resolution demo_spec_Env ''a.go'' demo_src i = Some (x, demo_ResolveDecl x, ())"
  by (simp add: resolution_def demo_spec_parsed demo_spec_index_node)
     (simp add: demo_spec_Env_def spec_Env_def demo_rest_def)

section \<open>Claims\<close>

text \<open>
  Claim C1. With the position index, the clamping step, the locator and the
  assignment index as the specification has them (\<open>spec_Env\<close>), a query either
  succeeds with both positions or returns an error value with both positions
  \<open>nil\<close> (\<open>Failure\<close>), and the error is \<open>ParseError\<close>, \<open>NotAnIdentifier\<close> or
  \<open>UnresolvedIdentifier\<close>: the first when parsing fails, the second when the
  located node is not a name, the third when resolution finds no declaration.
  The query never panics, whatever the parser, the resolver and the remaining
  collaborators are.
\<close>

theorem DeclPosition_fails_with_typed_error:
  fixes E :: "('t SourceFile list, 'r, 's) Env"
    and parser :: "int \<Rightarrow> 's \<Rightarrow> (nat \<times> 't) option"
    and inner :: "'t \<Rightarrow> int \<Rightarrow> Node option"
    and new :: "'r \<Rightarrow> Ident \<Rightarrow> bool"
  defines "S \<equiv> spec_Env E parser inner new"
  shows "((\<exists>posp endp. fst (DeclPosition S d out f s i) = Return (Some posp) (Some endp) None)
           \<or> fst (DeclPosition S d out f s i) = Failure ParseError
           \<or> fst (DeclPosition S d out f s i) = Failure NotAnIdentifier
           \<or> fst (DeclPosition S d out f s i) = Failure UnresolvedIdentifier)
   \<and> (fst (parsed S f s) = None \<longrightarrow> fst (DeclPosition S d out f s i) = Failure ParseError)
   \<and> (\<forall>n. index_node S f s i = Some n \<and> \<not> is_Ident n \<longrightarrow>
          fst (DeclPosition S d out f s i) = Failure NotAnIdentifier)
   \<and> (\<forall>idn res. resolution S f s i = Some (idn, None, res) \<longrightarrow>
          fst (DeclPosition S d out f s i) = Failure UnresolvedIdentifier)
   \<and> fst (DeclPosition S d out f s i) \<noteq> Panic"
proof -
  have shape: "((\<exists>posp endp. fst (DeclPosition S d out f s i) = Return (Some posp) (Some endp) None)
           \<or> fst (DeclPosition S d out f s i) = Failure ParseError
           \<or> fst (DeclPosition S d out f s i) = Failure NotAnIdentifier
           \<or> fst (DeclPosition S d out f s i) = Failure UnresolvedIdentifier)
         \<and> fst (DeclPosition S d out f s i) \<noteq> Panic"
  proof (cases rule: stages [where E = S and f = f and s = s and i = i])
    case at_parse
    then show ?thesis by (simp add: DeclPosition_parse_fail Failure_def)
  next
    case (at_file a)
    with spec_token_file [of E parser inner new f s a] show ?thesis by (simp add: S_def)
  next
    case (at_node tf)
    with spec_index_node [of E parser inner new f s tf i] show ?thesis by (simp add: S_def)
  next
    case (at_ident n)
    then show ?thesis by (simp add: DeclPosition_not_ident Failure_def)
  next
    case (at_unres idn res)
    then show ?thesis by (simp add: DeclPosition_unresolved Failure_def)
  next
    case (at_res idn node res)
    have "\<forall>t. node = N_AssignStmt t \<longrightarrow> fst (IdAssignStmtRhs S res idn t) < int (length (Lhs t))"
      using spec_index_in_Lhs [of E parser inner new] by (simp add: index_in_Lhs_def S_def)
    from improve_node_Some [of node "IdAssignStmtRhs S res" idn, OF this] obtain n
      where "improve_node (IdAssignStmtRhs S res) idn node = Some n" by blast
    with at_res show ?thesis by (simp add: DeclPosition_resolved span_of_def)
  qed
  have parse: "fst (parsed S f s) = None \<longrightarrow> fst (DeclPosition S d out f s i) = Failure ParseError"
    by (simp add: DeclPosition_parse_fail)
  have ident: "\<forall>n. index_node S f s i = Some n \<and> \<not> is_Ident n \<longrightarrow>
         fst (DeclPosition S d out f s i) = Failure NotAnIdentifier"
    using DeclPosition_not_ident [of S f s i] by blast
  have unres: "\<forall>idn res. resolution S f s i = Some (idn, None, res) \<longrightarrow>
         fst (DeclPosition S d out f s i) = Failure UnresolvedIdentifier"
    using DeclPosition_unresolved [of S f s i] by blast
  from shape parse ident unres show ?thesis by blast
qed

theorem DeclPosition_fails_with_typed_error_witness:
  "fst (DeclPosition demo_spec_Env False [] ''a.go'' demo_src 64) = Failure UnresolvedIdentifier
   \<and> fst (DeclPosition demo_spec_Env False [] ''a.go'' demo_src 100) = Failure NotAnIdentifier
   \<and> fst (DeclPosition demo_spec_Env False [] ''a.go'' ''package p;func F( {'' 3) = Failure ParseError"
proof -
  note t = DeclPosition_fails_with_typed_error [of demo_rest demo_parser demo_inner "\<lambda>res. all_new"
      False "[]" "''a.go''", folded demo_spec_Env_def]
  have "demo_inner demo_idents (1 + clampOffset \<lparr>Base = 1, Size = 67\<rparr> 64) = Some (N_Ident (Ident 65 ''int''))"
    by (simp add: demo_inner_def demo_idents_def clampOffset_def)
  from demo_spec_resolution [OF this]
  have "resolution demo_spec_Env ''a.go'' demo_src 64 = Some (Ident 65 ''int'', None, ())"
    by (simp add: demo_ResolveDecl_def)
  with t [of demo_src 64]
  have u: "fst (DeclPosition demo_spec_Env False [] ''a.go'' demo_src 64) = Failure UnresolvedIdentifier"
    by blast
  have "index_node demo_spec_Env ''a.go'' demo_src 100 = Some (N_Other 1 68)"
    by (simp add: demo_spec_index_node demo_inner_def demo_idents_def clampOffset_def)
  with t [of demo_src 100]
  have n: "fst (DeclPosition demo_spec_Env False [] ''a.go'' demo_src 100) = Failure NotAnIdentifier"
    by auto
  have "fst (parsed demo_spec_Env ''a.go'' ''package p;func F( {'') = None"
    by (simp add: parsed_def demo_spec_Env_def spec_Env_def demo_rest_def ParseFile_spec_def
        demo_parser_def demo_src_def)
  with t [of "''package p;func F( {''" 3]
  have p: "fst (DeclPosition demo_spec_Env False [] ''a.go'' ''package p;func F( {'' 3) = Failure ParseError"
    by blast
  from u n p show ?thesis by simp
qed

text \<open>
  Claim C2. When the resolved declaration is a short assignment and
  \<open>IdAssignStmtRhs\<close> computes the index as the specification has it
  (\<open>lhs_index\<close>), the query returns the span of the left-hand identifier at the
  position matching the queried name among the newly-declared names.
\<close>

theorem short_assignment_refined:
  assumes "resolution E f s i = Some (idn, Some (N_AssignStmt t), res)"
    and "fst (IdAssignStmtRhs E res idn t) = lhs_index new idn t"
    and "Lhs t = pre @ IdentExpr x # post"
    and "new x" and "Name x = Name idn"
    and "\<forall>e \<in> set pre. \<not> matches_name new (Name idn) e"
  shows "fst (DeclPosition E d out f s i) = span_of E res (N_Ident x)"
proof -
  have "lhs_index new idn t = int (length pre)"
    using assms(3-6) by (simp add: lhs_index_def lhs_index_from_first)
  with assms(2,3) have "improve_node (IdAssignStmtRhs E res) idn (N_AssignStmt t) = Some (N_Ident x)"
    by simp
  with assms(1) show ?thesis by (simp add: DeclPosition_resolved)
qed

theorem short_assignment_refined_witness:
  "fst (DeclPosition demo_Env False [] ''a.go'' demo_src 32) =
     Return (Some \<lparr>Filename = ''a.go'', Offset = 32, Line = 1, Column = 33\<rparr>)
            (Some \<lparr>Filename = ''a.go'', Offset = 33, Line = 1, Column = 34\<rparr>) None"
proof -
  have r: "resolution demo_Env ''a.go'' demo_src 32 =
      Some (Ident 33 ''c'',
        Some (N_AssignStmt (AssignStmt [IdentExpr (Ident 30 ''b''), IdentExpr (Ident 33 ''c'')] 30 42)),
        ())"
    using demo_resolution [OF demo_at_32] by (simp add: demo_ResolveDecl_def)
  have "fst (DeclPosition demo_Env False [] ''a.go'' demo_src 32) =
      span_of demo_Env () (N_Ident (Ident 33 ''c''))"
    by (rule short_assignment_refined [OF r, where new = all_new
          and pre = "[IdentExpr (Ident 30 ''b'')]" and post = "[]"])
       (simp_all add: demo_Env_def all_new_def)
  then show ?thesis by (simp add: demo_span)
qed

text \<open>
  Claim C3, amended. When the resolved declaration is a function or type
  declaration, the query returns the span of the declaration's name identifier,
  not of the whole declaration. When the queried identifier is a declaring
  occurrence of the resolved declaration and no earlier identifier of the same
  name precedes it in the name list (or among the new names of the left-hand
  side, with the index of \<open>IdAssignStmtRhs\<close> as in \<open>lhs_index\<close>), the query
  succeeds with exactly the span of that identifier.
\<close>

theorem declaring_occurrence_span:
  assumes "resolution E f s i = Some (idn, Some node, res)"
  shows "(\<forall>name p e. node = N_FuncDecl name p e \<or> node = N_TypeSpec name p e \<longrightarrow>
            fst (DeclPosition E d out f s i) = span_of E res (N_Ident name))
    \<and> (first_of_name new node idn
         \<and> (\<forall>t. node = N_AssignStmt t \<longrightarrow> fst (IdAssignStmtRhs E res idn t) = lhs_index new idn t)
        \<longrightarrow> declares new node idn
            \<and> fst (DeclPosition E d out f s i) = span_of E res (N_Ident idn))"
proof (intro conjI allI impI)
  fix name p e
  assume "node = N_FuncDecl name p e \<or> node = N_TypeSpec name p e"
  then have "improve_node (IdAssignStmtRhs E res) idn node = Some (N_Ident name)" by auto
  with assms show "fst (DeclPosition E d out f s i) = span_of E res (N_Ident name)"
    by (simp add: DeclPosition_resolved)
next
  assume a: "first_of_name new node idn
     \<and> (\<forall>t. node = N_AssignStmt t \<longrightarrow> fst (IdAssignStmtRhs E res idn t) = lhs_index new idn t)"
  then show "declares new node idn" by (simp add: first_of_name_declares)
  from a have "improve_node (IdAssignStmtRhs E res) idn node = Some (N_Ident idn)"
    by (intro first_of_name_improve [where new = new]) auto
  with assms show "fst (DeclPosition E d out f s i) = span_of E res (N_Ident idn)"
    by (simp add: DeclPosition_resolved)
qed

theorem declaring_occurrence_span_witness:
  "resolution demo_Env ''a.go'' demo_src 17 =
     Some (Ident 18 ''a'', Some (N_Field [Ident 18 ''a'', Ident 21 ''a''] 18 26), ())
   \<and> first_of_name all_new (N_Field [Ident 18 ''a'', Ident 21 ''a''] 18 26) (Ident 18 ''a'')
   \<and> fst (DeclPosition demo_Env False [] ''a.go'' demo_src 17) =
       Return (Some \<lparr>Filename = ''a.go'', Offset = 17, Line = 1, Column = 18\<rparr>)
              (Some \<lparr>Filename = ''a.go'', Offset = 18, Line = 1, Column = 19\<rparr>) None"
proof -
  have r: "resolution demo_Env ''a.go'' demo_src 17 =
     Some (Ident 18 ''a'', Some (N_Field [Ident 18 ''a'', Ident 21 ''a''] 18 26), ())"
    using demo_resolution [OF demo_at_17] by (simp add: demo_ResolveDecl_def)
  have f: "first_of_name all_new (N_Field [Ident 18 ''a'', Ident 21 ''a''] 18 26) (Ident 18 ''a'')"
    by simp
  from declaring_occurrence_span [OF r, where new = all_new and d = False and out = "[]"] f
  have "fst (DeclPosition demo_Env False [] ''a.go'' demo_src 17) =
      span_of demo_Env () (N_Ident (Ident 18 ''a''))"
    by simp
  with r f show ?thesis by (simp add: demo_span)
qed

text \<open>
  The claim as stated does not hold for a repeated name. In \<open>func F(a, a int)\<close> the
  second \<open>a\<close>, at offset 20, is a declaring occurrence of the field; the loop over
  the field's names stops at the first \<open>a\<close>, and the query returns the span 17 to
  18 of that one.
\<close>

theorem declaring_occurrence_counterexample:
  "index_node demo_Env ''a.go'' demo_src 20 = Some (N_Ident (Ident 21 ''a''))
   \<and> resolution demo_Env ''a.go'' demo_src 20 =
       Some (Ident 21 ''a'', Some (N_Field [Ident 18 ''a'', Ident 21 ''a''] 18 26), ())
   \<and> declares all_new (N_Field [Ident 18 ''a'', Ident 21 ''a''] 18 26) (Ident 21 ''a'')
   \<and> fst (DeclPosition demo_Env False [] ''a.go'' demo_src 20) =
       Return (Some \<lparr>Filename = ''a.go'', Offset = 17, Line = 1, Column = 18\<rparr>)
              (Some \<lparr>Filename = ''a.go'', Offset = 18, Line = 1, Column = 19\<rparr>) None
   \<and> span_of demo_Env () (N_Ident (Ident 21 ''a'')) =
       Return (Some \<lparr>Filename = ''a.go'', Offset = 20, Line = 1, Column = 21\<rparr>)
              (Some \<lparr>Filename = ''a.go'', Offset = 21, Line = 1, Column = 22\<rparr>) None
   \<and> fst (DeclPosition demo_Env False [] ''a.go'' demo_src 20) \<noteq>
       span_of demo_Env () (N_Ident (Ident 21 ''a''))"
proof -
  have n: "index_node demo_Env ''a.go'' demo_src 20 = Some (N_Ident (Ident 21 ''a''))"
    by (simp add: demo_index_node demo_at_20)
  have r: "resolution demo_Env ''a.go'' demo_src 20 =
       Some (Ident 21 ''a'', Some (N_Field [Ident 18 ''a'', Ident 21 ''a''] 18 26), ())"
    using demo_resolution [OF demo_at_20] by (simp add: demo_ResolveDecl_def)
  have q: "fst (DeclPosition demo_Env False [] ''a.go'' demo_src 20) =
      span_of demo_Env () (N_Ident (Ident 18 ''a''))"
    using r by (simp add: DeclPosition_resolved)
  from n r q show ?thesis by (simp add: demo_span)
qed

text \<open>
  Claim C4. The query fails with \<open>ParseError\<close> exactly when \<open>ParseFile\<close> yields no
  file for the content; then the result and the output are fixed whatever the
  locator and the resolver are, so that nothing is resolved, and the call
  returns.
\<close>

theorem parse_error_iff_not_parsed:
  fixes E :: "('i, 'r, 's) Env"
  shows "(fst (DeclPosition E d out f s i) = Failure ParseError \<longleftrightarrow> fst (parsed E f s) = None)
   \<and> (fst (parsed E f s) = None \<longrightarrow>
        (\<forall>E' :: ('i, 'r, 's) Env. NewInfo E' = NewInfo E \<and> AddPathFile E' = AddPathFile E \<and> ParseFile E' = ParseFile E
           \<longrightarrow> DeclPosition E' d out f s i = (Failure ParseError, out)))"
proof (intro conjI impI allI)
  show "fst (DeclPosition E d out f s i) = Failure ParseError \<longleftrightarrow> fst (parsed E f s) = None"
  proof (cases rule: stages [where E = E and f = f and s = s and i = i])
    case at_parse
    then show ?thesis by (simp add: DeclPosition_parse_fail)
  next
    case (at_file a)
    then show ?thesis by (simp add: DeclPosition_no_token_file Failure_inject)
  next
    case (at_node tf)
    then show ?thesis
      using token_file_parsed [of E f s tf] by (auto simp: DeclPosition_no_node Failure_inject)
  next
    case (at_ident n)
    then show ?thesis
      using index_node_parsed [of E f s i n] by (auto simp: DeclPosition_not_ident Failure_inject)
  next
    case (at_unres idn res)
    then show ?thesis
      using index_node_parsed [OF resolution_index_node [OF at_unres]]
      by (auto simp: DeclPosition_unresolved Failure_inject)
  next
    case (at_res idn node res)
    then show ?thesis
      using index_node_parsed [OF resolution_index_node [OF at_res]] resolved_not_Failure [OF at_res]
      by auto
  qed
next
  fix E' :: "('i, 'r, 's) Env"
  assume "fst (parsed E f s) = None"
    and "NewInfo E' = NewInfo E \<and> AddPathFile E' = AddPathFile E \<and> ParseFile E' = ParseFile E"
  then have "fst (parsed E' f s) = None" by (simp add: parsed_def)
  then show "DeclPosition E' d out f s i = (Failure ParseError, out)"
    by (rule DeclPosition_parse_fail)
qed

theorem parse_error_iff_not_parsed_witness:
  "fst (parsed demo_Env ''a.go'' ''package p;func F( {'') = None
   \<and> fst (DeclPosition demo_Env False [] ''a.go'' ''package p;func F( {'' 3) = Failure ParseError
   \<and> DeclPosition demo_Env_no_node False [] ''a.go'' ''package p;func F( {'' 3 = (Failure ParseError, [])"
proof -
  have p: "fst (parsed demo_Env ''a.go'' ''package p;func F( {'') = None"
    by (simp add: parsed_def demo_Env_def demo_src_def)
  note t = parse_error_iff_not_parsed [of demo_Env False "[]" "''a.go''" "''package p;func F( {''" 3]
  from t p have every:
    "\<forall>E' :: (unit, unit, string) Env.
       NewInfo E' = NewInfo demo_Env \<and> AddPathFile E' = AddPathFile demo_Env
         \<and> ParseFile E' = ParseFile demo_Env
       \<longrightarrow> DeclPosition E' False [] ''a.go'' ''package p;func F( {'' 3 = (Failure ParseError, [])"
    by blast
  from every [rule_format, of demo_Env_no_node]
  have "DeclPosition demo_Env_no_node False [] ''a.go'' ''package p;func F( {'' 3 = (Failure ParseError, [])"
    by (simp add: demo_Env_no_node_def)
  with t p show ?thesis by simp
qed

text \<open>
  Claim C6. The clamping step maps every offset to the nearest valid offset of
  the file, \<open>0\<close> for a negative one and the size for one past the end, and leaves
  a valid offset as it is; it never fails. A query at an out-of-range offset is
  the query at the clamped offset, so the offset alone causes no error.
\<close>

theorem SafeOffsetPos_clamps:
  assumes "0 \<le> Size tf"
  shows "Base tf \<le> SafeOffsetPos_spec tf i \<and> SafeOffsetPos_spec tf i \<le> Base tf + Size tf
    \<and> (0 \<le> i \<and> i \<le> Size tf \<longrightarrow> SafeOffsetPos_spec tf i = Base tf + i)
    \<and> (i < 0 \<longrightarrow> SafeOffsetPos_spec tf i = Base tf)
    \<and> (Size tf < i \<longrightarrow> SafeOffsetPos_spec tf i = Base tf + Size tf)
    \<and> (\<forall>v. 0 \<le> v \<and> v \<le> Size tf \<longrightarrow> \<bar>clampOffset tf i - i\<bar> \<le> \<bar>v - i\<bar>)
    \<and> (SafeOffsetPos E = (\<lambda>info. SafeOffsetPos_spec) \<and> token_file E f s = Some tf \<longrightarrow>
         DeclPosition E d out f s i = DeclPosition E d out f s (clampOffset tf i))"
proof -
  have bounds: "Base tf \<le> SafeOffsetPos_spec tf i \<and> SafeOffsetPos_spec tf i \<le> Base tf + Size tf"
    using assms by (simp add: SafeOffsetPos_spec_def clampOffset_def)
  have inside: "0 \<le> i \<and> i \<le> Size tf \<longrightarrow> SafeOffsetPos_spec tf i = Base tf + i"
    by (simp add: SafeOffsetPos_spec_def clampOffset_def)
  have below: "i < 0 \<longrightarrow> SafeOffsetPos_spec tf i = Base tf"
    by (simp add: SafeOffsetPos_spec_def clampOffset_def)
  have above: "Size tf < i \<longrightarrow> SafeOffsetPos_spec tf i = Base tf + Size tf"
    using assms by (simp add: SafeOffsetPos_spec_def clampOffset_def)
  have nearest: "\<forall>v. 0 \<le> v \<and> v \<le> Size tf \<longrightarrow> \<bar>clampOffset tf i - i\<bar> \<le> \<bar>v - i\<bar>"
    by (auto simp: clampOffset_def)
  have query: "SafeOffsetPos E = (\<lambda>info. SafeOffsetPos_spec) \<and> token_file E f s = Some tf \<longrightarrow>
         DeclPosition E d out f s i = DeclPosition E d out f s (clampOffset tf i)"
  proof
    assume a: "SafeOffsetPos E = (\<lambda>info. SafeOffsetPos_spec) \<and> token_file E f s = Some tf"
    then have "\<forall>info. SafeOffsetPos E info tf i = SafeOffsetPos E info tf (clampOffset tf i)"
      using assms by (simp add: SafeOffsetPos_spec_def clampOffset_idem)
    with a show "DeclPosition E d out f s i = DeclPosition E d out f s (clampOffset tf i)"
      by (blast intro: DeclPosition_index_cong)
  qed
  from bounds inside below above nearest query show ?thesis by blast
qed

theorem SafeOffsetPos_clamps_witness:
  "(0::int) \<le> Size \<lparr>Base = 1, Size = 67\<rparr>
   \<and> SafeOffsetPos_spec \<lparr>Base = 1, Size = 67\<rparr> 68 = 68
   \<and> SafeOffsetPos_spec \<lparr>Base = 1, Size = 67\<rparr> (- 1) = 1
   \<and> DeclPosition demo_Env False [] ''a.go'' demo_src 68 = DeclPosition demo_Env False [] ''a.go'' demo_src 67"
proof -
  have sz: "(0::int) \<le> Size \<lparr>Base = 1, Size = 67\<rparr>" by simp
  have so: "SafeOffsetPos demo_Env = (\<lambda>info. SafeOffsetPos_spec)" by (simp add: demo_Env_def)
  note t = SafeOffsetPos_clamps [OF sz, of _ demo_Env "''a.go''" demo_src False "[]"]
  have "DeclPosition demo_Env False [] ''a.go'' demo_src 68 =
        DeclPosition demo_Env False [] ''a.go'' demo_src (clampOffset \<lparr>Base = 1, Size = 67\<rparr> 68)"
    using t [of 68] so demo_token_file by blast
  moreover have "SafeOffsetPos_spec \<lparr>Base = 1, Size = 67\<rparr> 68 = 68"
    using t [of 68] by simp
  moreover have "SafeOffsetPos_spec \<lparr>Base = 1, Size = 67\<rparr> (- 1) = 1"
    using t [of "- 1"] by simp
  ultimately show ?thesis by (simp add: clampOffset_def)
qed

text \<open>
  Claim C7. When the resolved declaration is a field or a value specification,
  the query returns the span of the identifier of its name list whose name is the
  queried name, and of the first such identifier in source order when several
  carry that name.
\<close>

theorem names_first_match:
  assumes "resolution E f s i = Some (idn, Some node, res)"
    and "node = N_Field names p e \<or> node = N_ValueSpec names p e"
    and "names = pre @ id2 # post"
    and "Name id2 = Name idn"
    and "\<forall>y \<in> set pre. Name y \<noteq> Name idn"
  shows "fst (DeclPosition E d out f s i) = span_of E res (N_Ident id2)"
proof -
  have "find (\<lambda>y. Name y = Name idn) names = Some id2"
    using assms(3-5) by (simp add: find_first)
  with assms(2) have "improve_node (IdAssignStmtRhs E res) idn node = Some (N_Ident id2)"
    by auto
  with assms(1) show ?thesis by (simp add: DeclPosition_resolved)
qed

theorem names_first_match_witness:
  "fst (DeclPosition demo_Env False [] ''a.go'' demo_src 51) =
     Return (Some \<lparr>Filename = ''a.go'', Offset = 51, Line = 1, Column = 52\<rparr>)
            (Some \<lparr>Filename = ''a.go'', Offset = 52, Line = 1, Column = 53\<rparr>) None"
proof -
  have r: "resolution demo_Env ''a.go'' demo_src 51 =
      Some (Ident 52 ''w'', Some (N_ValueSpec [Ident 49 ''v'', Ident 52 ''w''] 49 57), ())"
    using demo_resolution [OF demo_at_51] by (simp add: demo_ResolveDecl_def)
  have "fst (DeclPosition demo_Env False [] ''a.go'' demo_src 51) =
      span_of demo_Env () (N_Ident (Ident 52 ''w''))"
    by (rule names_first_match [OF r, where names = "[Ident 49 ''v'', Ident 52 ''w'']"
          and pre = "[Ident 49 ''v'']" and post = "[]" and p = 49 and e = 57]) simp_all
  then show ?thesis by (simp add: demo_span)
qed

text \<open>
  Claim C8. With the index of \<open>IdAssignStmtRhs\<close> as the specification has it
  (\<open>lhs_index\<close>), refinement never fails: it yields a matching sub-identifier of
  the resolved node, or the node itself when the node has none, and the query
  returns the span of what refinement yields. Whatever the index is, a node of a
  kind the switch does not handle is returned as it is, the left-hand side is not
  read at a negative index, which leaves the statement, and a field or value
  specification with no identifier of the queried name is returned whole.
\<close>

theorem improve_node_total:
  "((\<forall>t. fst (rhs idn t) = lhs_index new idn t) \<longrightarrow>
      (improve_node rhs idn node = Some node \<and> (\<forall>x. \<not> matching_sub new node idn x))
      \<or> (\<exists>x. improve_node rhs idn node = Some (N_Ident x) \<and> matching_sub new node idn x))
   \<and> improve_node rhs idn (N_Other p e) = Some (N_Other p e)
   \<and> improve_node rhs idn (N_Ident y) = Some (N_Ident y)
   \<and> (fst (rhs idn t) < 0 \<longrightarrow> improve_node rhs idn (N_AssignStmt t) = Some (N_AssignStmt t))
   \<and> ((\<forall>y \<in> set names. Name y \<noteq> Name idn) \<longrightarrow>
        improve_node rhs idn (N_Field names p e) = Some (N_Field names p e)
        \<and> improve_node rhs idn (N_ValueSpec names p e) = Some (N_ValueSpec names p e))
   \<and> ((\<forall>t. fst (IdAssignStmtRhs E res idn t) = lhs_index new idn t)
        \<and> resolution E f s i = Some (idn, Some node, res) \<longrightarrow>
        (fst (DeclPosition E d out f s i) = span_of E res node
           \<and> (\<forall>x. \<not> matching_sub new node idn x))
        \<or> (\<exists>x. fst (DeclPosition E d out f s i) = span_of E res (N_Ident x)
               \<and> matching_sub new node idn x))"
proof -
  have total: "(\<forall>t. fst (rhs idn t) = lhs_index new idn t) \<longrightarrow>
      (improve_node rhs idn node = Some node \<and> (\<forall>x. \<not> matching_sub new node idn x))
      \<or> (\<exists>x. improve_node rhs idn node = Some (N_Ident x) \<and> matching_sub new node idn x)"
    using improve_node_matching [of rhs idn new node] by blast
  have neg: "fst (rhs idn t) < 0 \<longrightarrow> improve_node rhs idn (N_AssignStmt t) = Some (N_AssignStmt t)"
    by (simp add: Let_def)
  have nomatch: "(\<forall>y \<in> set names. Name y \<noteq> Name idn) \<longrightarrow>
        improve_node rhs idn (N_Field names p e) = Some (N_Field names p e)
        \<and> improve_node rhs idn (N_ValueSpec names p e) = Some (N_ValueSpec names p e)"
    using find_names_cases [of "Name idn" names] by auto
  have query: "(\<forall>t. fst (IdAssignStmtRhs E res idn t) = lhs_index new idn t)
        \<and> resolution E f s i = Some (idn, Some node, res) \<longrightarrow>
        (fst (DeclPosition E d out f s i) = span_of E res node
           \<and> (\<forall>x. \<not> matching_sub new node idn x))
        \<or> (\<exists>x. fst (DeclPosition E d out f s i) = span_of E res (N_Ident x)
               \<and> matching_sub new node idn x)"
  proof
    assume a: "(\<forall>t. fst (IdAssignStmtRhs E res idn t) = lhs_index new idn t)
        \<and> resolution E f s i = Some (idn, Some node, res)"
    then have r: "resolution E f s i = Some (idn, Some node, res)" by simp
    from a improve_node_matching [of "IdAssignStmtRhs E res" idn new node]
    consider "improve_node (IdAssignStmtRhs E res) idn node = Some node"
        "\<forall>x. \<not> matching_sub new node idn x"
      | x where "improve_node (IdAssignStmtRhs E res) idn node = Some (N_Ident x)"
        "matching_sub new node idn x"
      by blast
    then show "(fst (DeclPosition E d out f s i) = span_of E res node
           \<and> (\<forall>x. \<not> matching_sub new node idn x))
        \<or> (\<exists>x. fst (DeclPosition E d out f s i) = span_of E res (N_Ident x)
               \<and> matching_sub new node idn x)"
    proof cases
      case 1
      with r show ?thesis by (simp add: DeclPosition_resolved)
    next
      case 2
      with r have "fst (DeclPosition E d out f s i) = span_of E res (N_Ident x)"
        by (simp add: DeclPosition_resolved)
      with 2 show ?thesis by blast
    qed
  qed
  from total neg nomatch query show ?thesis by simp
qed

theorem improve_node_total_witness:
  "resolution demo_Env ''a.go'' demo_src 32 =
       Some (Ident 33 ''c'',
         Some (N_AssignStmt (AssignStmt [IdentExpr (Ident 30 ''b''), IdentExpr (Ident 33 ''c'')] 30 42)),
         ())
   \<and> fst (DeclPosition demo_Env False [] ''a.go'' demo_src 32) =
       span_of demo_Env () (N_Ident (Ident 33 ''c''))
   \<and> improve_node (IdAssignStmtRhs demo_Env ()) (Ident 38 ''z'')
        (N_Field [Ident 18 ''a'', Ident 21 ''a''] 18 26) =
       Some (N_Field [Ident 18 ''a'', Ident 21 ''a''] 18 26)"
proof -
  let ?t = "AssignStmt [IdentExpr (Ident 30 ''b''), IdentExpr (Ident 33 ''c'')] 30 42"
  have r: "resolution demo_Env ''a.go'' demo_src 32 = Some (Ident 33 ''c'', Some (N_AssignStmt ?t), ())"
    using demo_resolution [OF demo_at_32] by (simp add: demo_ResolveDecl_def)
  have h: "\<forall>t. fst (IdAssignStmtRhs demo_Env () (Ident 33 ''c'') t) = lhs_index all_new (Ident 33 ''c'') t"
    by (simp add: demo_Env_def)
  have m: "matching_sub all_new (N_AssignStmt ?t) (Ident 33 ''c'') (Ident 33 ''c'')"
    by (simp add: all_new_def)
  note t = improve_node_total [where E = demo_Env and res = "()" and idn = "Ident 33 ''c''"
      and new = all_new and node = "N_AssignStmt ?t" and f = "''a.go''" and s = demo_src and i = 32
      and d = False and out = "[]"]
  from t h r m obtain x where
    x: "fst (DeclPosition demo_Env False [] ''a.go'' demo_src 32) = span_of demo_Env () (N_Ident x)"
      "matching_sub all_new (N_AssignStmt ?t) (Ident 33 ''c'') x"
    by blast
  from x(2) have "x = Ident 33 ''c''" by auto
  with x(1) have q: "fst (DeclPosition demo_Env False [] ''a.go'' demo_src 32) =
       span_of demo_Env () (N_Ident (Ident 33 ''c''))" by simp
  have "improve_node (IdAssignStmtRhs demo_Env ()) (Ident 38 ''z'')
        (N_Field [Ident 18 ''a'', Ident 21 ''a''] 18 26) =
       Some (N_Field [Ident 18 ''a'', Ident 21 ''a''] 18 26)"
    using improve_node_total [where rhs = "IdAssignStmtRhs demo_Env ()" and idn = "Ident 38 ''z''"
        and p = 18 and e = 26 and names = "[Ident 18 ''a'', Ident 21 ''a'']"]
    by simp
  with r q show ?thesis by simp
qed

text \<open>
  Claim C9. The query fails with \<open>NotAnIdentifier\<close> exactly when a node is located
  at the clamped offset and that node is not an identifier. This holds wherever
  the offset lies, also between two tokens: only the located node counts.
\<close>

theorem not_an_identifier_iff:
  "fst (DeclPosition E d out f s i) = Failure NotAnIdentifier \<longleftrightarrow>
     (\<exists>n. index_node E f s i = Some n \<and> \<not> is_Ident n)"
proof (cases rule: stages [where E = E and f = f and s = s and i = i])
  case at_parse
  then show ?thesis
    using index_node_parsed [of E f s i] by (auto simp: DeclPosition_parse_fail Failure_inject)
next
  case (at_file a)
  then show ?thesis
    using index_node_token_file [of E f s i] by (auto simp: DeclPosition_no_token_file Failure_inject)
next
  case (at_node tf)
  then show ?thesis by (simp add: DeclPosition_no_node Failure_inject)
next
  case (at_ident n)
  then show ?thesis by (auto simp: DeclPosition_not_ident)
next
  case (at_unres idn res)
  then show ?thesis
    using resolution_index_node [OF at_unres] by (simp add: DeclPosition_unresolved Failure_inject)
next
  case (at_res idn node res)
  then show ?thesis
    using resolution_index_node [OF at_res] resolved_not_Failure [OF at_res] by simp
qed

theorem not_an_identifier_iff_witness:
  "index_node demo_Env ''a.go'' demo_src 26 = Some (N_Other 1 68)
   \<and> \<not> is_Ident (N_Other 1 68)
   \<and> fst (DeclPosition demo_Env False [] ''a.go'' demo_src 26) = Failure NotAnIdentifier"
proof -
  have n: "index_node demo_Env ''a.go'' demo_src 26 = Some (N_Other 1 68)"
    by (simp add: demo_index_node demo_PosNode_def demo_idents_def clampOffset_def)
  with not_an_identifier_iff [of demo_Env False "[]" "''a.go''" demo_src 26]
  show ?thesis by simp
qed

text \<open>
  Claim C10. Whenever \<open>DeclPosition\<close> returns, both positions are \<open>nil\<close> exactly
  when the error is not \<open>nil\<close>, and both are present exactly when the error is
  \<open>nil\<close>; no partial result is returned. The only way not to return is the panic
  of \<open>t.Lhs[lhsi]\<close>, which needs an index of \<open>IdAssignStmtRhs\<close> beyond the
  left-hand side.
\<close>

theorem DeclPosition_positions_iff_no_error:
  "(case fst (DeclPosition E d out f s i) of
      Return posp endp err \<Rightarrow> (posp = None \<longleftrightarrow> err \<noteq> None) \<and> (endp = None \<longleftrightarrow> err \<noteq> None)
    | Panic \<Rightarrow> \<not> index_in_Lhs E)"
proof -
  let ?r = "fst (DeclPosition E d out f s i)"
  show ?thesis
  proof (cases rule: stages [where E = E and f = f and s = s and i = i])
    case at_parse
    then show ?thesis by (simp add: DeclPosition_parse_fail Failure_def)
  next
    case (at_file a)
    then show ?thesis by (simp add: DeclPosition_no_token_file Failure_def)
  next
    case (at_node tf)
    then show ?thesis by (simp add: DeclPosition_no_node Failure_def)
  next
    case (at_ident n)
    then show ?thesis by (simp add: DeclPosition_not_ident Failure_def)
  next
    case (at_unres idn res)
    then show ?thesis by (simp add: DeclPosition_unresolved Failure_def)
  next
    case (at_res idn node res)
    show ?thesis
    proof (cases "improve_node (IdAssignStmtRhs E res) idn node")
      case None
      then obtain t where t: "node = N_AssignStmt t"
        by (cases node) (auto split: option.splits)
      with None have "\<not> fst (IdAssignStmtRhs E res idn t) < int (length (Lhs t))"
        by (auto simp: Let_def split: if_splits)
      then have "\<not> index_in_Lhs E" unfolding index_in_Lhs_def by blast
      with None at_res show ?thesis by (simp add: DeclPosition_resolved)
    next
      case (Some n)
      with at_res show ?thesis by (simp add: DeclPosition_resolved span_of_def)
    qed
  qed
qed

theorem DeclPosition_positions_iff_no_error_witness:
  "(case fst (DeclPosition demo_Env False [] ''a.go'' demo_src 15) of
      Return posp endp err \<Rightarrow> (posp = None \<longleftrightarrow> err \<noteq> None) \<and> (endp = None \<longleftrightarrow> err \<noteq> None)
    | Panic \<Rightarrow> \<not> index_in_Lhs demo_Env)
   \<and> fst (DeclPosition demo_Env False [] ''a.go'' demo_src 15) =
       Return (Some \<lparr>Filename = ''a.go'', Offset = 15, Line = 1, Column = 16\<rparr>)
              (Some \<lparr>Filename = ''a.go'', Offset = 16, Line = 1, Column = 17\<rparr>) None"
  using DeclPosition_positions_iff_no_error [of demo_Env False "[]" "''a.go''" demo_src 15]
  by (simp add: DeclPosition_def demo_defs Let_def)

end
